theory Spec2Isabelle
  imports Main "HOL-Library.List_Lexorder" "HOL-Library.Sublist" "HOL-Library.Multiset"
begin

section \<open>Python strings\<close>

text \<open>
  A Python \<open>str\<close> is a sequence of Unicode code points and is compared code point by
  code point, so it is modelled as a list of naturals under the lexicographic order of
  \<open>List_Lexorder\<close>. \<open>lit\<close> turns an ASCII literal into such a string.
\<close>

type_synonym pystr = "nat list"

definition lit :: "string \<Rightarrow> pystr" where
  "lit s = map of_char s"

text \<open>
  \<open>str.isspace\<close> for one code point: the characters CPython lists as whitespace
  (tab to carriage return, the four separators U+001C..U+001F, space, U+0085, U+00A0,
  U+1680, U+2000..U+200A, U+2028, U+2029, U+202F, U+205F, U+3000).
\<close>

definition py_isspace :: "nat \<Rightarrow> bool" where
  "py_isspace c \<longleftrightarrow>
     (9 \<le> c \<and> c \<le> 13) \<or> (28 \<le> c \<and> c \<le> 32) \<or> c = 133 \<or> c = 160 \<or> c = 5760 \<or>
     (8192 \<le> c \<and> c \<le> 8202) \<or> c = 8232 \<or> c = 8233 \<or> c = 8239 \<or> c = 8287 \<or> c = 12288"

text \<open>\<open>s.strip()\<close>: whitespace removed at both ends.\<close>

definition strip :: "pystr \<Rightarrow> pystr" where
  "strip s = rev (dropWhile py_isspace (rev (dropWhile py_isspace s)))"

text \<open>\<open>s.split(sep)\<close> for a one-character separator; the result is never empty.\<close>

fun split :: "pystr \<Rightarrow> nat \<Rightarrow> pystr list" where
  "split [] sep = [[]]"
| "split (c # cs) sep =
     (if c = sep then [] # split cs sep
      else (case split cs sep of [] \<Rightarrow> [[c]] | p # ps \<Rightarrow> (c # p) # ps))"

text \<open>\<open>sep.join(parts)\<close>.\<close>

fun join :: "pystr \<Rightarrow> pystr list \<Rightarrow> pystr" where
  "join sep [] = []"
| "join sep [p] = p"
| "join sep (p # q # ps) = p @ sep @ join sep (q # ps)"

text \<open>\<open>str(n)\<close> for an integer: decimal digits, with a minus sign when negative.\<close>

function digits_nat :: "nat \<Rightarrow> pystr" where
  "digits_nat n = (if n < 10 then [48 + n] else digits_nat (n div 10) @ [48 + n mod 10])"
  by pat_completeness auto
termination
  by (relation "measure id") auto

declare digits_nat.simps [simp del]

definition str_int :: "int \<Rightarrow> pystr" where
  "str_int i = (if i < 0 then 45 # digits_nat (nat (- i)) else digits_nat (nat i))"

definition endswith :: "pystr \<Rightarrow> pystr \<Rightarrow> bool" where
  "endswith s suf \<longleftrightarrow>
     length suf \<le> length s \<and> drop (length s - length suf) s = suf"

section \<open>Paths\<close>

text \<open>
  Paths are the strings \<open>str(path)\<close> gives. The directories handed to the two
  scripts are taken as already expanded and resolved (absolute, no trailing slash
  except for the root itself), which is what \<open>expanduser().resolve()\<close> returns.
\<close>

definition joinpath :: "pystr \<Rightarrow> pystr \<Rightarrow> pystr" where
  "joinpath d name = (if d = lit ''/'' then d @ name else d @ lit ''/'' @ name)"

text \<open>\<open>s.rfind(c)\<close>: index of the last occurrence of \<open>c\<close>, or \<open>-1\<close>.\<close>

definition rfind :: "pystr \<Rightarrow> nat \<Rightarrow> int" where
  "rfind s c =
     (if c \<in> set s then int (length s) - int (length (takeWhile (\<lambda>x. x \<noteq> c) (rev s))) - 1
      else - 1)"

text \<open>
  \<open>PurePath.stem\<close> of a file name: the name without its last suffix, where a dot
  that starts or ends the name does not begin a suffix.
\<close>

definition stem :: "pystr \<Rightarrow> pystr" where
  "stem name =
     (let i = rfind name 46
      in if 0 < i \<and> i < int (length name) - 1 then take (nat i) name else name)"

section \<open>The dataset builder (scripts/build_lora_dataset.py)\<close>

subsection \<open>Data\<close>

text \<open>The value stored under \<open>"recaption"\<close>: a dict with the single key \<open>"style"\<close>.\<close>

record style_dict =
  style :: pystr

text \<open>
  One record of the dataset; the fields are the keys of the dict the code builds.
  \<open>recaption = None\<close> means the key is absent from the dict.
\<close>

record dataset_record =
  keys :: pystr
  filename :: pystr
  tags :: "pystr list"
  norm_lyrics :: pystr
  recaption :: "style_dict option"

text \<open>
  What one run of the external transcoder does: its exit status, the text of its
  standard error, and whether its output path exists as a file once it has ended.
  The transcoder itself is a parameter: a function of the command line it is given.
\<close>

record ffmpeg_run =
  returncode :: int
  stderr :: pystr
  output_written :: bool

type_synonym transcoder = "pystr list \<Rightarrow> ffmpeg_run"

text \<open>
  The part of the machine the builder touches.
  \<^item> \<open>audio_files\<close>: the names in \<open>audio_dir\<close>, in the order the file system lists them;
  \<^item> \<open>lyrics_files\<close>: the files of \<open>lyrics_dir\<close>, name to decoded text;
  \<^item> \<open>output_dir_exists\<close>, \<open>converted_dir_exists\<close>: whether \<open>output_dir\<close> and
    \<open>output_dir/converted_audio\<close> exist;
  \<^item> \<open>converted_files\<close>: the paths of the files that exist under \<open>converted_audio\<close>;
  \<^item> \<open>saved_dataset\<close>: the dataset last saved at \<open>output_dir\<close>, if any;
  \<^item> \<open>stdout\<close>: the lines printed; \<open>ffmpeg_calls\<close>: the transcoder command lines run.
  The builder reads the first two and writes only below \<open>output_dir\<close>. Every
  transcript that exists is taken to be a readable text file; errors of the file
  system itself are outside the model.
\<close>

record world =
  audio_files :: "pystr list"
  lyrics_files :: "pystr \<rightharpoonup> pystr"
  output_dir_exists :: bool
  converted_dir_exists :: bool
  converted_files :: "pystr set"
  saved_dataset :: "dataset_record list option"
  stdout :: "pystr list"
  ffmpeg_calls :: "pystr list list"

datatype exn = RuntimeError pystr | SystemExit int

fun str_exn :: "exn \<Rightarrow> pystr" where
  "str_exn (RuntimeError msg) = msg"
| "str_exn (SystemExit n) = str_int n"

definition print :: "pystr \<Rightarrow> world \<Rightarrow> world" where
  "print line w = w\<lparr>stdout := stdout w @ [line]\<rparr>"

subsection \<open>run_ffmpeg\<close>

definition ffmpeg_cmd :: "pystr \<Rightarrow> pystr \<Rightarrow> int \<Rightarrow> pystr list" where
  "ffmpeg_cmd input_path output_path sample_rate =
     [lit ''ffmpeg'', lit ''-y'', lit ''-i'', input_path, lit ''-ar'', str_int sample_rate,
      lit ''-ac'', lit ''2'', output_path]"

text \<open>
  \<open>output_path.parent.mkdir(parents=True, exist_ok=True)\<close> comes first: the only
  caller passes a path directly under \<open>converted_audio\<close>, so the call creates that
  directory and, as its parent, \<open>output_dir\<close>. Then the transcoder runs; a non-zero
  exit status raises \<open>RuntimeError\<close> with the standard error text in the message.
\<close>

definition run_ffmpeg ::
  "transcoder \<Rightarrow> pystr \<Rightarrow> pystr \<Rightarrow> int \<Rightarrow> world \<Rightarrow> (exn + unit) \<times> world" where
  "run_ffmpeg ff input_path output_path sample_rate w =
     (let w1 = w\<lparr>output_dir_exists := True, converted_dir_exists := True\<rparr>;
          cmd = ffmpeg_cmd input_path output_path sample_rate;
          result = ff cmd;
          w2 = w1\<lparr>ffmpeg_calls := ffmpeg_calls w1 @ [cmd],
                  converted_files :=
                    (if output_written result then insert output_path (converted_files w1)
                     else converted_files w1)\<rparr>
      in if returncode result \<noteq> 0
         then (Inl (RuntimeError (lit ''ffmpeg failed for '' @ input_path @ lit '' -> '' @
                      output_path @ lit '': '' @ stderr result)), w2)
         else (Inr (), w2))"

subsection \<open>build_dataset\<close>

definition converted_dir :: "pystr \<Rightarrow> pystr" where
  "converted_dir output_dir = joinpath output_dir (lit ''converted_audio'')"

definition target_audio :: "pystr \<Rightarrow> pystr \<Rightarrow> pystr" where
  "target_audio output_dir base = joinpath (converted_dir output_dir) (base @ lit ''.wav'')"

text \<open>
  The conversion step of one iteration (the \<open>if not target_audio.exists()\<close> block):
  \<open>True\<close> when the iteration goes on to the transcript, \<open>False\<close> when it hits
  \<open>continue\<close>. Every exception of \<open>run_ffmpeg\<close> is caught here.
\<close>

definition convert_step ::
  "transcoder \<Rightarrow> pystr \<Rightarrow> pystr \<Rightarrow> int \<Rightarrow> pystr \<Rightarrow> world \<Rightarrow> bool \<times> world" where
  "convert_step ff audio_dir output_dir sample_rate name w =
     (let target = target_audio output_dir (stem name)
      in if target \<notin> converted_files w
         then (case run_ffmpeg ff (joinpath audio_dir name) target sample_rate w of
                 (Inr u, w') \<Rightarrow>
                   (True, print (lit ''[ok] converted '' @ name @ lit '' -> '' @ target) w')
               | (Inl e, w') \<Rightarrow>
                   (False, print (lit ''[error] convert failed for '' @ name @ lit '': '' @
                                    str_exn e) w'))
         else (True, w))"

definition make_record ::
  "pystr \<Rightarrow> pystr list \<Rightarrow> pystr option \<Rightarrow> pystr \<Rightarrow> pystr \<Rightarrow> dataset_record" where
  "make_record output_dir tgs rc base lyr =
     \<lparr>keys = base, filename = target_audio output_dir base, tags = tgs, norm_lyrics = lyr,
      recaption = (case rc of None \<Rightarrow> None
                   | Some s \<Rightarrow> if s = [] then None else Some \<lparr>style = s\<rparr>)\<rparr>"

text \<open>
  The body of the \<open>for\<close> loop for one audio file name: the new world, and the
  record appended (\<open>None\<close> for each \<open>continue\<close>).
\<close>

definition loop_body ::
  "transcoder \<Rightarrow> pystr \<Rightarrow> pystr \<Rightarrow> pystr \<Rightarrow> pystr list \<Rightarrow> pystr option \<Rightarrow> int \<Rightarrow>
   pystr \<Rightarrow> world \<Rightarrow> world \<times> dataset_record option" where
  "loop_body ff audio_dir lyrics_dir output_dir tgs rc sample_rate name w =
     (let base = stem name;
          lyrics_name = base @ lit ''.txt''
      in case lyrics_files w lyrics_name of
           None \<Rightarrow> (print (lit ''[skip] missing lyrics file for '' @ name) w, None)
         | Some text \<Rightarrow>
             (case convert_step ff audio_dir output_dir sample_rate name w of
                (False, w1) \<Rightarrow> (w1, None)
              | (True, w1) \<Rightarrow>
                  (if strip text = []
                   then (print (lit ''[skip] empty lyrics in '' @
                                  joinpath lyrics_dir lyrics_name) w1, None)
                   else (w1, Some (make_record output_dir tgs rc base (strip text))))))"

fun scan_loop ::
  "transcoder \<Rightarrow> pystr \<Rightarrow> pystr \<Rightarrow> pystr \<Rightarrow> pystr list \<Rightarrow> pystr option \<Rightarrow> int \<Rightarrow>
   pystr list \<Rightarrow> world \<Rightarrow> dataset_record list \<Rightarrow> world \<times> dataset_record list" where
  "scan_loop ff audio_dir lyrics_dir output_dir tgs rc sample_rate [] w records = (w, records)"
| "scan_loop ff audio_dir lyrics_dir output_dir tgs rc sample_rate (name # names) w records =
     (case loop_body ff audio_dir lyrics_dir output_dir tgs rc sample_rate name w of
        (w', None) \<Rightarrow>
          scan_loop ff audio_dir lyrics_dir output_dir tgs rc sample_rate names w' records
      | (w', Some r) \<Rightarrow>
          scan_loop ff audio_dir lyrics_dir output_dir tgs rc sample_rate names w'
            (records @ [r]))"

text \<open>
  \<open>sorted(audio_dir.glob(f"*{audio_ext}"))\<close>: the names that end with
  \<open>audio_ext\<close> (taken to hold no glob metacharacter), sorted. The paths share the
  directory, so comparing them is comparing the names.
\<close>

definition audio_paths :: "pystr \<Rightarrow> world \<Rightarrow> pystr list" where
  "audio_paths audio_ext w = sort (filter (\<lambda>name. endswith name audio_ext) (audio_files w))"

text \<open>The scan: everything up to the test \<open>if not records\<close>.\<close>

definition scan ::
  "transcoder \<Rightarrow> pystr \<Rightarrow> pystr \<Rightarrow> pystr \<Rightarrow> pystr list \<Rightarrow> pystr option \<Rightarrow> pystr \<Rightarrow> int \<Rightarrow>
   world \<Rightarrow> world \<times> dataset_record list" where
  "scan ff audio_dir lyrics_dir output_dir tgs rc audio_ext sample_rate w =
     scan_loop ff audio_dir lyrics_dir output_dir tgs rc sample_rate (audio_paths audio_ext w) w []"

definition no_valid_pairs :: exn where
  "no_valid_pairs = RuntimeError (lit ''No valid audio/lyrics pairs found.'')"

definition build_dataset ::
  "transcoder \<Rightarrow> pystr \<Rightarrow> pystr \<Rightarrow> pystr \<Rightarrow> pystr list \<Rightarrow> pystr option \<Rightarrow> pystr \<Rightarrow> int \<Rightarrow>
   world \<Rightarrow> (exn + unit) \<times> world" where
  "build_dataset ff audio_dir lyrics_dir output_dir tgs rc audio_ext sample_rate w =
     (case scan ff audio_dir lyrics_dir output_dir tgs rc audio_ext sample_rate w of
        (w1, records) \<Rightarrow>
          if records = [] then (Inl no_valid_pairs, w1)
          else (Inr (),
                print (lit ''Saved dataset with '' @ str_int (int (length records)) @
                         lit '' items to '' @ output_dir)
                  (w1\<lparr>output_dir_exists := True, saved_dataset := Some records\<rparr>)))"

subsection \<open>main\<close>

text \<open>The namespace \<open>parse_args\<close> returns; \<open>args_tags\<close> is the raw comma-separated string.\<close>

record args =
  args_audio_dir :: pystr
  args_lyrics_dir :: pystr
  args_output_dir :: pystr
  args_tags :: pystr
  args_recaption :: "pystr option"
  args_audio_ext :: pystr
  args_sample_rate :: int

text \<open>\<open>[t.strip() for t in args.tags.split(",") if t.strip()]\<close>\<close>

definition parse_tags :: "pystr \<Rightarrow> pystr list" where
  "parse_tags s = map strip (filter (\<lambda>t. strip t \<noteq> []) (split s 44))"

definition main :: "transcoder \<Rightarrow> args \<Rightarrow> world \<Rightarrow> (exn + unit) \<times> world" where
  "main ff a w =
     build_dataset ff (args_audio_dir a) (args_lyrics_dir a) (args_output_dir a)
       (parse_tags (args_tags a)) (args_recaption a) (args_audio_ext a) (args_sample_rate a) w"

section \<open>The channel fetcher (scripts/download_channel_mp3.py)\<close>

text \<open>
  One run of the external downloader: its exit status and the files it left in the
  output directory. The downloader is a function of its command line.
\<close>

record yt_dlp_run =
  yt_returncode :: int
  yt_files :: "pystr set"

type_synonym downloader = "pystr list \<Rightarrow> yt_dlp_run"

record fetch_world =
  fetch_dir_exists :: bool
  fetch_files :: "pystr set"
  fetch_stdout :: "pystr list"
  yt_dlp_calls :: "pystr list list"

definition ensure_output_dir :: "fetch_world \<Rightarrow> fetch_world" where
  "ensure_output_dir w = w\<lparr>fetch_dir_exists := True\<rparr>"

definition yt_dlp_cmd :: "pystr \<Rightarrow> pystr \<Rightarrow> int \<Rightarrow> pystr list" where
  "yt_dlp_cmd channel_url output_dir max_concurrent =
     [lit ''yt-dlp'', lit ''--yes-playlist'', lit ''--ignore-errors'',
      lit ''--no-abort-on-error'', lit ''--extract-audio'', lit ''--audio-format'',
      lit ''mp3'', lit ''--audio-quality'', lit ''0'', lit ''--concurrent-fragments'',
      str_int max_concurrent, lit ''--output'',
      joinpath output_dir (lit ''%(title)s-%(id)s.%(ext)s''), channel_url]"

definition download_channel ::
  "downloader \<Rightarrow> pystr \<Rightarrow> pystr \<Rightarrow> int \<Rightarrow> fetch_world \<Rightarrow> (exn + unit) \<times> fetch_world" where
  "download_channel yt channel_url output_dir max_concurrent w =
     (let w1 = ensure_output_dir w;
          cmd = yt_dlp_cmd channel_url output_dir max_concurrent;
          w2 = w1\<lparr>fetch_stdout := fetch_stdout w1 @ [lit ''Running: '' @ join (lit '' '') cmd]\<rparr>;
          result = yt cmd;
          w3 = w2\<lparr>yt_dlp_calls := yt_dlp_calls w2 @ [cmd],
                  fetch_files := fetch_files w2 \<union> yt_files result\<rparr>
      in if yt_returncode result \<noteq> 0 then (Inl (SystemExit (yt_returncode result)), w3)
         else (Inr (), w3))"

record fetch_args =
  args_channel_url :: pystr
  args_fetch_output_dir :: pystr
  args_max_concurrent :: int

definition fetch_main :: "downloader \<Rightarrow> fetch_args \<Rightarrow> fetch_world \<Rightarrow> (exn + unit) \<times> fetch_world" where
  "fetch_main yt a w =
     download_channel yt (args_channel_url a) (args_fetch_output_dir a) (args_max_concurrent a) w"

section \<open>Vocabulary for the properties\<close>

text \<open>The transcript the loop looks up for an audio file name: the text of \<open>B.txt\<close>.\<close>

definition transcript :: "world \<Rightarrow> pystr \<Rightarrow> pystr option" where
  "transcript w name = lyrics_files w (stem name @ lit ''.txt'')"

text \<open>The transcoder command line the loop runs for an audio file name.\<close>

definition convert_cmd :: "pystr \<Rightarrow> pystr \<Rightarrow> int \<Rightarrow> pystr \<Rightarrow> pystr list" where
  "convert_cmd audio_dir output_dir sample_rate name =
     ffmpeg_cmd (joinpath audio_dir name) (target_audio output_dir (stem name)) sample_rate"

text \<open>What a run added to the transcoder log and to standard output.\<close>

definition new_calls :: "world \<Rightarrow> world \<Rightarrow> pystr list list" where
  "new_calls w w' = drop (length (ffmpeg_calls w)) (ffmpeg_calls w')"

definition new_stdout :: "world \<Rightarrow> world \<Rightarrow> pystr list" where
  "new_stdout w w' = drop (length (stdout w)) (stdout w')"

text \<open>
  The tag list as the specification words it: the comma-separated pieces, each stripped,
  with the pieces that are empty or hold only whitespace dropped.
\<close>

definition whitespace_only :: "pystr \<Rightarrow> bool" where
  "whitespace_only p \<longleftrightarrow> list_all py_isspace p"

definition tag_list_spec :: "pystr \<Rightarrow> pystr list" where
  "tag_list_spec s = map strip (filter (\<lambda>p. \<not> whitespace_only p) (split s 44))"

section \<open>Example inputs\<close>

text \<open>A machine on which nothing has been built yet.\<close>

definition fresh_world :: "pystr list \<Rightarrow> (pystr \<rightharpoonup> pystr) \<Rightarrow> world" where
  "fresh_world listing lyrics =
     \<lparr>audio_files = listing, lyrics_files = lyrics, output_dir_exists = False,
      converted_dir_exists = False, converted_files = {}, saved_dataset = None,
      stdout = [], ffmpeg_calls = []\<rparr>"

text \<open>
  Transcoders: one that always converts, one that always fails and leaves nothing, and
  two that fail on one input path only (the argument after \<open>-i\<close>), leaving nothing
  or leaving a partial output file.
\<close>

definition ffmpeg_ok :: transcoder where
  "ffmpeg_ok cmd = \<lparr>returncode = 0, stderr = [], output_written = True\<rparr>"

definition ffmpeg_broken :: transcoder where
  "ffmpeg_broken cmd =
     \<lparr>returncode = 1, stderr = lit ''Invalid data'', output_written = False\<rparr>"

definition ffmpeg_fails_on :: "pystr \<Rightarrow> transcoder" where
  "ffmpeg_fails_on bad cmd =
     (if cmd ! 3 = bad
      then \<lparr>returncode = 1, stderr = lit ''Invalid data'', output_written = False\<rparr>
      else \<lparr>returncode = 0, stderr = [], output_written = True\<rparr>)"

definition ffmpeg_partial_on :: "pystr \<Rightarrow> transcoder" where
  "ffmpeg_partial_on bad cmd =
     (if cmd ! 3 = bad
      then \<lparr>returncode = 1, stderr = lit ''Conversion failed!'', output_written = True\<rparr>
      else \<lparr>returncode = 0, stderr = [], output_written = True\<rparr>)"

definition two_songs :: world where
  "two_songs = fresh_world [lit ''song1.mp3'', lit ''song2.mp3'']
                 [lit ''song1.txt'' \<mapsto> lit ''hello world'']"

definition blank_song :: world where
  "blank_song = fresh_world [lit ''a.mp3''] [lit ''a.txt'' \<mapsto> lit ''   '']"

definition dash_songs :: world where
  "dash_songs = fresh_world [lit ''a.mp3'', lit ''a-b.mp3'']
                  [lit ''a.txt'' \<mapsto> lit ''one'', lit ''a-b.txt'' \<mapsto> lit ''two'']"

definition abc_lyrics :: "pystr \<rightharpoonup> pystr" where
  "abc_lyrics = [lit ''a.txt'' \<mapsto> lit ''one'', lit ''b.txt'' \<mapsto> lit ''two'',
                 lit ''c.txt'' \<mapsto> lit ''three'']"

definition xyz_songs :: world where
  "xyz_songs = fresh_world [lit ''x.mp3'', lit ''y.mp3'', lit ''z.mp3'']
                 [lit ''x.txt'' \<mapsto> lit ''one'', lit ''y.txt'' \<mapsto> lit ''two'',
                  lit ''z.txt'' \<mapsto> lit ''three'']"

section \<open>Helper lemmas: strings, paths and logs\<close>

lemma strip_empty_iff: "strip t = [] \<longleftrightarrow> (\<forall>c\<in>set t. py_isspace c)"
proof -
  have "set t = set (takeWhile py_isspace t) \<union> set (dropWhile py_isspace t)"
    by (metis set_append takeWhile_dropWhile_id)
  then have "(\<forall>x\<in>set (dropWhile py_isspace t). py_isspace x) \<longleftrightarrow> (\<forall>c\<in>set t. py_isspace c)"
    by (auto dest: set_takeWhileD)
  then show ?thesis
    by (simp add: strip_def dropWhile_eq_Nil_conv)
qed

lemma split_nonempty: "split s sep \<noteq> []"
  by (induction s) (auto split: list.splits)

lemma join_Cons_head: "join sep ((c # p) # ps) = c # join sep (p # ps)"
  by (cases ps) simp_all

lemma join_split: "join [sep] (split s sep) = s"
proof (induction s)
  case Nil
  show ?case by simp
next
  case (Cons c cs)
  obtain p ps where sp: "split cs sep = p # ps"
    using split_nonempty [of cs sep] by (cases "split cs sep") auto
  with Cons show ?case
    by (simp add: join_Cons_head)
qed

lemma split_no_sep: "p \<in> set (split s sep) \<Longrightarrow> sep \<notin> set p"
  by (induction s arbitrary: p) (auto split: if_splits list.splits)

lemma split_chars: "p \<in> set (split s sep) \<Longrightarrow> set p \<subseteq> set s"
proof (induction s arbitrary: p)
  case Nil
  then show ?case by simp
next
  case (Cons c cs)
  obtain q qs where sp: "split cs sep = q # qs"
    using split_nonempty [of cs sep] by (cases "split cs sep") auto
  then have q: "set q \<subseteq> set cs" and qs: "\<forall>r\<in>set qs. set r \<subseteq> set cs"
    using Cons.IH by simp_all
  show ?case
  proof (cases "c = sep")
    case True
    with Cons.prems sp q qs show ?thesis by auto
  next
    case False
    with Cons.prems sp q qs show ?thesis by auto
  qed
qed

lemma whitespace_only_strip: "whitespace_only p \<longleftrightarrow> strip p = []"
  by (simp add: whitespace_only_def strip_empty_iff list_all_iff)

lemma subseq_sorted:
  "subseq xs ys \<Longrightarrow> sorted ys \<Longrightarrow> sorted xs"
proof (induction rule: list_emb.induct)
  case (list_emb_Nil ys)
  show ?case by simp
next
  case (list_emb_Cons xs ys y)
  then show ?case by simp
next
  case (list_emb_Cons2 x y xs ys)
  then have "set xs \<subseteq> set ys"
    by (auto dest: list_emb_set)
  with list_emb_Cons2 show ?case by auto
qed

lemma map_filter_cong_set:
  "(\<And>x. x \<in> set xs \<Longrightarrow> f x = g x) \<Longrightarrow> List.map_filter f xs = List.map_filter g xs"
  by (induction xs) (simp_all add: List.map_filter_simps split: option.splits)

lemma joinpath_inj: "joinpath d a = joinpath d b \<longleftrightarrow> a = b"
  by (simp add: joinpath_def)

lemma target_audio_inj: "target_audio od a = target_audio od b \<longleftrightarrow> a = b"
  by (simp add: target_audio_def joinpath_inj)

lemma convert_cmd_inj: "convert_cmd ad od sr n = convert_cmd ad od sr m \<longleftrightarrow> n = m"
  by (auto simp: convert_cmd_def ffmpeg_cmd_def joinpath_inj)

lemma new_calls_split:
  "ffmpeg_calls w1 = ffmpeg_calls w @ a \<Longrightarrow> ffmpeg_calls w2 = ffmpeg_calls w1 @ b \<Longrightarrow>
   new_calls w w2 = a @ b \<and> new_calls w1 w2 = b"
  by (simp add: new_calls_def)

lemma new_stdout_split:
  "stdout w1 = stdout w @ a \<Longrightarrow> stdout w2 = stdout w1 @ b \<Longrightarrow>
   new_stdout w w2 = a @ b \<and> new_stdout w1 w2 = b"
  by (simp add: new_stdout_def)

section \<open>Helper lemmas: one iteration\<close>

lemma print_fields [simp]:
  "audio_files (print l w) = audio_files w"
  "lyrics_files (print l w) = lyrics_files w"
  "output_dir_exists (print l w) = output_dir_exists w"
  "converted_dir_exists (print l w) = converted_dir_exists w"
  "converted_files (print l w) = converted_files w"
  "saved_dataset (print l w) = saved_dataset w"
  "ffmpeg_calls (print l w) = ffmpeg_calls w"
  "stdout (print l w) = stdout w @ [l]"
  by (simp_all add: print_def)

lemma convert_step_ok:
  "fst (convert_step ff ad od sr name w) \<longleftrightarrow>
     target_audio od (stem name) \<in> converted_files w \<or>
     returncode (ff (convert_cmd ad od sr name)) = 0"
  by (simp add: convert_step_def run_ffmpeg_def Let_def convert_cmd_def)

lemma convert_step_converted:
  "converted_files (snd (convert_step ff ad od sr name w)) =
     (if target_audio od (stem name) \<notin> converted_files w \<and>
         output_written (ff (convert_cmd ad od sr name))
      then insert (target_audio od (stem name)) (converted_files w)
      else converted_files w)"
  by (simp add: convert_step_def run_ffmpeg_def Let_def convert_cmd_def)

lemma convert_step_calls:
  "ffmpeg_calls (snd (convert_step ff ad od sr name w)) =
     ffmpeg_calls w @
     (if target_audio od (stem name) \<notin> converted_files w then [convert_cmd ad od sr name]
      else [])"
  by (simp add: convert_step_def run_ffmpeg_def Let_def convert_cmd_def)

lemma convert_step_dirs:
  "output_dir_exists (snd (convert_step ff ad od sr name w)) =
     (output_dir_exists w \<or> target_audio od (stem name) \<notin> converted_files w)"
  "converted_dir_exists (snd (convert_step ff ad od sr name w)) =
     (converted_dir_exists w \<or> target_audio od (stem name) \<notin> converted_files w)"
  by (simp_all add: convert_step_def run_ffmpeg_def Let_def)

lemma convert_step_frame:
  "audio_files (snd (convert_step ff ad od sr name w)) = audio_files w"
  "lyrics_files (snd (convert_step ff ad od sr name w)) = lyrics_files w"
  "saved_dataset (snd (convert_step ff ad od sr name w)) = saved_dataset w"
  by (simp_all add: convert_step_def run_ffmpeg_def Let_def)

lemma convert_step_stdout:
  "stdout (snd (convert_step ff ad od sr name w)) =
     stdout w @
     (if target_audio od (stem name) \<in> converted_files w then []
      else if returncode (ff (convert_cmd ad od sr name)) = 0
      then [lit ''[ok] converted '' @ name @ lit '' -> '' @ target_audio od (stem name)]
      else [lit ''[error] convert failed for '' @ name @ lit '': '' @
            (lit ''ffmpeg failed for '' @ joinpath ad name @ lit '' -> '' @
             target_audio od (stem name) @ lit '': '' @
             stderr (ff (convert_cmd ad od sr name)))])"
  by (simp add: convert_step_def run_ffmpeg_def Let_def convert_cmd_def)

lemma loop_body_unfold:
  "loop_body ff ad ld od tg rc sr name w =
     (case transcript w name of
        None \<Rightarrow> (print (lit ''[skip] missing lyrics file for '' @ name) w, None)
      | Some text \<Rightarrow>
          (if \<not> fst (convert_step ff ad od sr name w)
           then (snd (convert_step ff ad od sr name w), None)
           else if strip text = []
           then (print (lit ''[skip] empty lyrics in '' @
                          joinpath ld (stem name @ lit ''.txt''))
                   (snd (convert_step ff ad od sr name w)), None)
           else (snd (convert_step ff ad od sr name w),
                 Some (make_record od tg rc (stem name) (strip text)))))"
  by (cases "convert_step ff ad od sr name w")
     (simp add: loop_body_def transcript_def Let_def split: option.splits bool.splits)

lemma loop_body_record:
  "snd (loop_body ff ad ld od tg rc sr name w) =
     (case transcript w name of
        None \<Rightarrow> None
      | Some text \<Rightarrow>
          if (target_audio od (stem name) \<in> converted_files w \<or>
              returncode (ff (convert_cmd ad od sr name)) = 0) \<and> strip text \<noteq> []
          then Some (make_record od tg rc (stem name) (strip text)) else None)"
  by (simp add: loop_body_unfold convert_step_ok split: option.splits)

lemma loop_body_converted:
  "converted_files (fst (loop_body ff ad ld od tg rc sr name w)) =
     (if transcript w name \<noteq> None \<and> target_audio od (stem name) \<notin> converted_files w \<and>
         output_written (ff (convert_cmd ad od sr name))
      then insert (target_audio od (stem name)) (converted_files w)
      else converted_files w)"
  by (simp add: loop_body_unfold convert_step_converted split: option.splits)

lemma loop_body_calls:
  "ffmpeg_calls (fst (loop_body ff ad ld od tg rc sr name w)) =
     ffmpeg_calls w @
     (if transcript w name \<noteq> None \<and> target_audio od (stem name) \<notin> converted_files w
      then [convert_cmd ad od sr name] else [])"
  by (simp add: loop_body_unfold convert_step_calls split: option.splits)

lemma loop_body_dirs:
  "output_dir_exists (fst (loop_body ff ad ld od tg rc sr name w)) =
     (output_dir_exists w \<or>
      (transcript w name \<noteq> None \<and> target_audio od (stem name) \<notin> converted_files w))"
  "converted_dir_exists (fst (loop_body ff ad ld od tg rc sr name w)) =
     (converted_dir_exists w \<or>
      (transcript w name \<noteq> None \<and> target_audio od (stem name) \<notin> converted_files w))"
  by (simp_all add: loop_body_unfold convert_step_dirs split: option.splits)

lemma loop_body_frame:
  "audio_files (fst (loop_body ff ad ld od tg rc sr name w)) = audio_files w"
  "lyrics_files (fst (loop_body ff ad ld od tg rc sr name w)) = lyrics_files w"
  "saved_dataset (fst (loop_body ff ad ld od tg rc sr name w)) = saved_dataset w"
  by (simp_all add: loop_body_unfold convert_step_frame split: option.splits)

lemma loop_body_transcript:
  "transcript (fst (loop_body ff ad ld od tg rc sr name w)) n = transcript w n"
  by (simp add: transcript_def loop_body_frame)

lemma loop_body_stdout:
  "\<exists>ls. stdout (fst (loop_body ff ad ld od tg rc sr name w)) = stdout w @ ls"
  by (simp add: loop_body_unfold convert_step_stdout split: option.splits)

section \<open>Helper lemmas: the loop\<close>

lemma scan_loop_acc:
  "scan_loop ff ad ld od tg rc sr ns w recs =
     (fst (scan_loop ff ad ld od tg rc sr ns w []),
      recs @ snd (scan_loop ff ad ld od tg rc sr ns w []))"
proof (induction ns arbitrary: w recs)
  case Nil
  show ?case by simp
next
  case (Cons n ns)
  obtain w' ro where lb: "loop_body ff ad ld od tg rc sr n w = (w', ro)"
    by (cases "loop_body ff ad ld od tg rc sr n w")
  show ?case
  proof (cases ro)
    case None
    with lb show ?thesis using Cons.IH [of w' recs] by simp
  next
    case (Some r)
    with lb show ?thesis
      using Cons.IH [of w' "recs @ [r]"] Cons.IH [of w' "[r]"] by simp
  qed
qed

lemma scan_loop_Cons:
  "scan_loop ff ad ld od tg rc sr (n # ns) w [] =
     (fst (scan_loop ff ad ld od tg rc sr ns (fst (loop_body ff ad ld od tg rc sr n w)) []),
      (case snd (loop_body ff ad ld od tg rc sr n w) of None \<Rightarrow> [] | Some r \<Rightarrow> [r]) @
      snd (scan_loop ff ad ld od tg rc sr ns (fst (loop_body ff ad ld od tg rc sr n w)) []))"
proof -
  obtain w' ro where lb: "loop_body ff ad ld od tg rc sr n w = (w', ro)"
    by (cases "loop_body ff ad ld od tg rc sr n w")
  show ?thesis
  proof (cases ro)
    case None
    with lb show ?thesis by simp
  next
    case (Some r)
    with lb show ?thesis using scan_loop_acc [of ff ad ld od tg rc sr ns w' "[r]"] by simp
  qed
qed

declare scan_loop.simps(2) [simp del]

subsection \<open>What the loop keeps and what it adds\<close>

lemma scan_loop_frame:
  "audio_files (fst (scan_loop ff ad ld od tg rc sr ns w [])) = audio_files w \<and>
   lyrics_files (fst (scan_loop ff ad ld od tg rc sr ns w [])) = lyrics_files w \<and>
   saved_dataset (fst (scan_loop ff ad ld od tg rc sr ns w [])) = saved_dataset w"
proof (induction ns arbitrary: w)
  case Nil
  show ?case by simp
next
  case (Cons n ns)
  show ?case
    using Cons.IH [of "fst (loop_body ff ad ld od tg rc sr n w)"]
    by (simp add: scan_loop_Cons loop_body_frame)
qed

lemma scan_loop_converted_mono:
  "converted_files w \<subseteq> converted_files (fst (scan_loop ff ad ld od tg rc sr ns w []))"
proof (induction ns arbitrary: w)
  case Nil
  show ?case by simp
next
  case (Cons n ns)
  have "converted_files w \<subseteq> converted_files (fst (loop_body ff ad ld od tg rc sr n w))"
    by (auto simp: loop_body_converted)
  with Cons.IH [of "fst (loop_body ff ad ld od tg rc sr n w)"] show ?case
    by (auto simp: scan_loop_Cons)
qed

lemma scan_loop_converted_new:
  "t \<in> converted_files (fst (scan_loop ff ad ld od tg rc sr ns w [])) \<Longrightarrow>
   t \<in> converted_files w \<or>
   (\<exists>n\<in>set ns. t = target_audio od (stem n) \<and> transcript w n \<noteq> None \<and>
      output_written (ff (convert_cmd ad od sr n)))"
proof (induction ns arbitrary: w)
  case Nil
  then show ?case by simp
next
  case (Cons n ns)
  let ?w1 = "fst (loop_body ff ad ld od tg rc sr n w)"
  from Cons.prems have "t \<in> converted_files (fst (scan_loop ff ad ld od tg rc sr ns ?w1 []))"
    by (simp add: scan_loop_Cons)
  from Cons.IH [OF this] show ?case
    by (auto simp: loop_body_converted loop_body_transcript split: if_splits)
qed

lemma scan_loop_calls:
  "\<exists>cs. ffmpeg_calls (fst (scan_loop ff ad ld od tg rc sr ns w [])) = ffmpeg_calls w @ cs \<and>
        (\<forall>c\<in>set cs. \<exists>n\<in>set ns. c = convert_cmd ad od sr n \<and> transcript w n \<noteq> None \<and>
           target_audio od (stem n) \<notin> converted_files w)"
proof (induction ns arbitrary: w)
  case Nil
  show ?case by simp
next
  case (Cons n ns)
  let ?w1 = "fst (loop_body ff ad ld od tg rc sr n w)"
  obtain cs where cs:
    "ffmpeg_calls (fst (scan_loop ff ad ld od tg rc sr ns ?w1 [])) = ffmpeg_calls ?w1 @ cs"
    "\<forall>c\<in>set cs. \<exists>m\<in>set ns. c = convert_cmd ad od sr m \<and> transcript ?w1 m \<noteq> None \<and>
        target_audio od (stem m) \<notin> converted_files ?w1"
    using Cons.IH [of ?w1] by blast
  have mono: "converted_files w \<subseteq> converted_files ?w1"
    by (auto simp: loop_body_converted)
  from cs(2) mono
  have tail: "\<forall>c\<in>set cs. \<exists>m\<in>set (n # ns). c = convert_cmd ad od sr m \<and> transcript w m \<noteq> None \<and>
        target_audio od (stem m) \<notin> converted_files w"
    by (fastforce simp: loop_body_transcript)
  show ?case
  proof (cases "transcript w n \<noteq> None \<and> target_audio od (stem n) \<notin> converted_files w")
    case True
    then have "ffmpeg_calls (fst (scan_loop ff ad ld od tg rc sr (n # ns) w [])) =
        ffmpeg_calls w @ (convert_cmd ad od sr n # cs)"
      using cs(1) by (simp add: scan_loop_Cons loop_body_calls)
    moreover have "\<forall>c\<in>set (convert_cmd ad od sr n # cs). \<exists>m\<in>set (n # ns).
        c = convert_cmd ad od sr m \<and> transcript w m \<noteq> None \<and>
        target_audio od (stem m) \<notin> converted_files w"
      using True tail by simp
    ultimately show ?thesis by blast
  next
    case False
    then have "ffmpeg_calls (fst (scan_loop ff ad ld od tg rc sr (n # ns) w [])) =
        ffmpeg_calls w @ cs"
      using cs(1) by (simp add: scan_loop_Cons loop_body_calls)
    with tail show ?thesis by blast
  qed
qed

lemma scan_loop_stdout:
  "\<exists>ls. stdout (fst (scan_loop ff ad ld od tg rc sr ns w [])) = stdout w @ ls"
proof (induction ns arbitrary: w)
  case Nil
  show ?case by simp
next
  case (Cons n ns)
  let ?w1 = "fst (loop_body ff ad ld od tg rc sr n w)"
  obtain l1 where "stdout ?w1 = stdout w @ l1"
    using loop_body_stdout by blast
  moreover obtain l2 where
    "stdout (fst (scan_loop ff ad ld od tg rc sr ns ?w1 [])) = stdout ?w1 @ l2"
    using Cons.IH [of ?w1] by blast
  ultimately show ?case by (simp add: scan_loop_Cons)
qed

lemma scan_loop_dirs:
  "output_dir_exists (fst (scan_loop ff ad ld od tg rc sr ns w [])) =
     (output_dir_exists w \<or> new_calls w (fst (scan_loop ff ad ld od tg rc sr ns w [])) \<noteq> []) \<and>
   converted_dir_exists (fst (scan_loop ff ad ld od tg rc sr ns w [])) =
     (converted_dir_exists w \<or> new_calls w (fst (scan_loop ff ad ld od tg rc sr ns w [])) \<noteq> [])"
proof (induction ns arbitrary: w)
  case Nil
  show ?case by (simp add: new_calls_def)
next
  case (Cons n ns)
  let ?w1 = "fst (loop_body ff ad ld od tg rc sr n w)"
  let ?w2 = "fst (scan_loop ff ad ld od tg rc sr ns ?w1 [])"
  obtain cs where cs: "ffmpeg_calls ?w2 = ffmpeg_calls ?w1 @ cs"
    using scan_loop_calls [of ff ad ld od tg rc sr ns ?w1] by blast
  have w2: "fst (scan_loop ff ad ld od tg rc sr (n # ns) w []) = ?w2"
    by (simp add: scan_loop_Cons)
  show ?case
  proof (cases "transcript w n \<noteq> None \<and> target_audio od (stem n) \<notin> converted_files w")
    case True
    then have "new_calls w ?w2 = convert_cmd ad od sr n # cs"
      using cs by (simp add: new_calls_def loop_body_calls)
    with True Cons.IH [of ?w1] show ?thesis
      unfolding w2 by (simp add: loop_body_dirs)
  next
    case False
    then have "new_calls w ?w2 = cs" "new_calls ?w1 ?w2 = cs"
      using cs by (simp_all add: new_calls_def loop_body_calls)
    with False Cons.IH [of ?w1] show ?thesis
      unfolding w2 by (auto simp: loop_body_dirs)
  qed
qed

subsection \<open>The records of the loop\<close>

lemma keys_make_record [simp]:
  "keys (make_record od tg rc base lyr) = base"
  "filename (make_record od tg rc base lyr) = target_audio od base"
  "tags (make_record od tg rc base lyr) = tg"
  "norm_lyrics (make_record od tg rc base lyr) = lyr"
  by (simp_all add: make_record_def)

lemma scan_loop_fst_Cons:
  "fst (scan_loop ff ad ld od tg rc sr (n # ns) w []) =
     fst (scan_loop ff ad ld od tg rc sr ns (fst (loop_body ff ad ld od tg rc sr n w)) [])"
  by (simp add: scan_loop_Cons)

lemma scan_loop_snd_Cons:
  "snd (scan_loop ff ad ld od tg rc sr (n # ns) w []) =
     (case snd (loop_body ff ad ld od tg rc sr n w) of None \<Rightarrow> [] | Some r \<Rightarrow> [r]) @
     snd (scan_loop ff ad ld od tg rc sr ns (fst (loop_body ff ad ld od tg rc sr n w)) [])"
  by (simp add: scan_loop_Cons)

lemma scan_loop_records:
  "r \<in> set (snd (scan_loop ff ad ld od tg rc sr ns w [])) \<Longrightarrow>
   \<exists>n\<in>set ns. \<exists>t. transcript w n = Some t \<and> strip t \<noteq> [] \<and>
      r = make_record od tg rc (stem n) (strip t) \<and>
      (target_audio od (stem n) \<in> converted_files (fst (scan_loop ff ad ld od tg rc sr ns w [])) \<or>
       convert_cmd ad od sr n \<in> set (new_calls w (fst (scan_loop ff ad ld od tg rc sr ns w []))) \<and>
       returncode (ff (convert_cmd ad od sr n)) = 0)"
proof (induction ns arbitrary: w)
  case Nil
  then show ?case by simp
next
  case (Cons n ns)
  let ?w1 = "fst (loop_body ff ad ld od tg rc sr n w)"
  let ?w2 = "fst (scan_loop ff ad ld od tg rc sr ns ?w1 [])"
  have w2: "fst (scan_loop ff ad ld od tg rc sr (n # ns) w []) = ?w2"
    by (rule scan_loop_fst_Cons)
  obtain a where a: "ffmpeg_calls ?w1 = ffmpeg_calls w @ a"
    by (simp add: loop_body_calls)
  obtain b where b: "ffmpeg_calls ?w2 = ffmpeg_calls ?w1 @ b"
    using scan_loop_calls [of ff ad ld od tg rc sr ns ?w1] by blast
  note nc = new_calls_split [OF a b]
  have mono1: "converted_files w \<subseteq> converted_files ?w1"
    by (auto simp: loop_body_converted)
  have mono2: "converted_files ?w1 \<subseteq> converted_files ?w2"
    by (rule scan_loop_converted_mono)
  from Cons.prems consider
      (head) "snd (loop_body ff ad ld od tg rc sr n w) = Some r"
    | (tail) "r \<in> set (snd (scan_loop ff ad ld od tg rc sr ns ?w1 []))"
    by (auto simp: scan_loop_snd_Cons split: option.splits)
  then show ?case
  proof cases
    case head
    then obtain t where t: "transcript w n = Some t" "strip t \<noteq> []"
        "r = make_record od tg rc (stem n) (strip t)"
        "target_audio od (stem n) \<in> converted_files w \<or>
         returncode (ff (convert_cmd ad od sr n)) = 0"
      by (auto simp: loop_body_record split: option.splits if_splits)
    have "target_audio od (stem n) \<in> converted_files ?w2 \<or>
       convert_cmd ad od sr n \<in> set (new_calls w ?w2) \<and>
       returncode (ff (convert_cmd ad od sr n)) = 0"
    proof (cases "target_audio od (stem n) \<in> converted_files w")
      case True
      with mono1 mono2 show ?thesis by blast
    next
      case False
      with t(1) have "a = [convert_cmd ad od sr n]"
        using a by (simp add: loop_body_calls)
      with nc False t(4) show ?thesis by simp
    qed
    with t show ?thesis unfolding w2 by auto
  next
    case tail
    from Cons.IH [OF tail] obtain m t where m: "m \<in> set ns" "transcript ?w1 m = Some t"
        "strip t \<noteq> []" "r = make_record od tg rc (stem m) (strip t)"
        "target_audio od (stem m) \<in> converted_files ?w2 \<or>
         convert_cmd ad od sr m \<in> set (new_calls ?w1 ?w2) \<and>
         returncode (ff (convert_cmd ad od sr m)) = 0"
      by blast
    from m(5) nc have "target_audio od (stem m) \<in> converted_files ?w2 \<or>
         convert_cmd ad od sr m \<in> set (new_calls w ?w2) \<and>
         returncode (ff (convert_cmd ad od sr m)) = 0"
      by auto
    with m show ?thesis unfolding w2 by (auto simp: loop_body_transcript)
  qed
qed

lemma scan_loop_keys:
  "r \<in> set (snd (scan_loop ff ad ld od tg rc sr ns w [])) \<Longrightarrow> keys r \<in> stem ` set ns"
  using scan_loop_records [of r ff ad ld od tg rc sr ns w] by auto

lemma scan_loop_includes:
  "n \<in> set ns \<Longrightarrow> transcript w n = Some t \<Longrightarrow> strip t \<noteq> [] \<Longrightarrow>
   target_audio od (stem n) \<in> converted_files w \<or> returncode (ff (convert_cmd ad od sr n)) = 0 \<Longrightarrow>
   make_record od tg rc (stem n) (strip t) \<in> set (snd (scan_loop ff ad ld od tg rc sr ns w []))"
proof (induction ns arbitrary: w)
  case Nil
  then show ?case by simp
next
  case (Cons m ns)
  let ?w1 = "fst (loop_body ff ad ld od tg rc sr m w)"
  show ?case
  proof (cases "n = m")
    case True
    with Cons.prems have "snd (loop_body ff ad ld od tg rc sr m w) =
        Some (make_record od tg rc (stem n) (strip t))"
      by (simp add: loop_body_record)
    then show ?thesis by (simp add: scan_loop_snd_Cons)
  next
    case False
    with Cons.prems have "n \<in> set ns" by simp
    moreover have "transcript ?w1 n = Some t"
      using Cons.prems by (simp add: loop_body_transcript)
    moreover have "target_audio od (stem n) \<in> converted_files ?w1 \<or>
        returncode (ff (convert_cmd ad od sr n)) = 0"
      using Cons.prems(4) by (auto simp: loop_body_converted)
    ultimately have "make_record od tg rc (stem n) (strip t) \<in>
        set (snd (scan_loop ff ad ld od tg rc sr ns ?w1 []))"
      using Cons.IH [of ?w1] Cons.prems(3) by blast
    then show ?thesis by (simp add: scan_loop_snd_Cons)
  qed
qed

lemma loop_body_other_target:
  "stem n \<noteq> k \<Longrightarrow> target_audio od k \<notin> converted_files w \<Longrightarrow>
   target_audio od k \<notin> converted_files (fst (loop_body ff ad ld od tg rc sr n w))"
  by (simp add: loop_body_converted target_audio_inj)

lemma scan_loop_failed_item:
  "distinct (map stem ns) \<Longrightarrow> x \<in> set ns \<Longrightarrow> transcript w x = Some t \<Longrightarrow>
   target_audio od (stem x) \<notin> converted_files w \<Longrightarrow>
   returncode (ff (convert_cmd ad od sr x)) \<noteq> 0 \<Longrightarrow>
   stem x \<notin> keys ` set (snd (scan_loop ff ad ld od tg rc sr ns w [])) \<and>
   (lit ''[error] convert failed for '' @ x @ lit '': '' @
      (lit ''ffmpeg failed for '' @ joinpath ad x @ lit '' -> '' @
       target_audio od (stem x) @ lit '': '' @ stderr (ff (convert_cmd ad od sr x))))
     \<in> set (new_stdout w (fst (scan_loop ff ad ld od tg rc sr ns w [])))"
proof (induction ns arbitrary: w)
  case Nil
  then show ?case by simp
next
  case (Cons m ns)
  let ?w1 = "fst (loop_body ff ad ld od tg rc sr m w)"
  let ?w2 = "fst (scan_loop ff ad ld od tg rc sr ns ?w1 [])"
  let ?line = "lit ''[error] convert failed for '' @ x @ lit '': '' @
      (lit ''ffmpeg failed for '' @ joinpath ad x @ lit '' -> '' @
       target_audio od (stem x) @ lit '': '' @ stderr (ff (convert_cmd ad od sr x)))"
  have w2: "fst (scan_loop ff ad ld od tg rc sr (m # ns) w []) = ?w2"
    by (rule scan_loop_fst_Cons)
  obtain a where a: "stdout ?w1 = stdout w @ a"
    using loop_body_stdout by blast
  obtain b where b: "stdout ?w2 = stdout ?w1 @ b"
    using scan_loop_stdout by blast
  note ns = new_stdout_split [OF a b]
  show ?case
  proof (cases "x = m")
    case True
    with Cons.prems have none: "snd (loop_body ff ad ld od tg rc sr m w) = None"
      by (simp add: loop_body_record)
    from Cons.prems(1) True have "stem x \<notin> stem ` set ns" by simp
    then have "stem x \<notin> keys ` set (snd (scan_loop ff ad ld od tg rc sr ns ?w1 []))"
      by (auto dest!: scan_loop_keys)
    with none have k: "stem x \<notin> keys ` set (snd (scan_loop ff ad ld od tg rc sr (m # ns) w []))"
      by (simp add: scan_loop_snd_Cons)
    from Cons.prems True have "stdout ?w1 = stdout w @ [?line]"
      by (simp add: loop_body_unfold convert_step_ok convert_step_stdout)
    with a have "a = [?line]" by simp
    with ns have "?line \<in> set (new_stdout w ?w2)" by simp
    with k show ?thesis unfolding w2 by simp
  next
    case False
    with Cons.prems have xin: "x \<in> set ns" and ne: "stem m \<noteq> stem x"
      by auto
    have "stem x \<notin> keys ` set (snd (scan_loop ff ad ld od tg rc sr ns ?w1 [])) \<and>
        ?line \<in> set (new_stdout ?w1 ?w2)"
      using Cons.IH [of ?w1] Cons.prems xin ne
      by (simp add: loop_body_transcript loop_body_other_target)
    moreover have "stem x \<notin> keys ` set (case snd (loop_body ff ad ld od tg rc sr m w) of
        None \<Rightarrow> [] | Some r \<Rightarrow> [r])"
      using ne by (auto simp: loop_body_record split: option.splits if_splits)
    ultimately show ?thesis
      unfolding w2 using ns by (simp add: scan_loop_snd_Cons image_Un)
  qed
qed

lemma loop_body_record_cong:
  "transcript w' n = transcript w n \<Longrightarrow>
   (target_audio od (stem n) \<in> converted_files w' \<longleftrightarrow>
    target_audio od (stem n) \<in> converted_files w) \<Longrightarrow>
   snd (loop_body ff ad ld od tg rc sr n w') = snd (loop_body ff ad ld od tg rc sr n w)"
  by (cases "transcript w n") (simp_all add: loop_body_record)

lemma scan_loop_distinct:
  "distinct (map stem ns) \<Longrightarrow>
   snd (scan_loop ff ad ld od tg rc sr ns w []) =
     List.map_filter (\<lambda>n. snd (loop_body ff ad ld od tg rc sr n w)) ns"
proof (induction ns arbitrary: w)
  case Nil
  show ?case by (simp add: List.map_filter_simps)
next
  case (Cons m ns)
  let ?w1 = "fst (loop_body ff ad ld od tg rc sr m w)"
  have "\<forall>n\<in>set ns. snd (loop_body ff ad ld od tg rc sr n ?w1) =
      snd (loop_body ff ad ld od tg rc sr n w)"
  proof
    fix n assume "n \<in> set ns"
    with Cons.prems have "stem m \<noteq> stem n" by auto
    then show "snd (loop_body ff ad ld od tg rc sr n ?w1) =
        snd (loop_body ff ad ld od tg rc sr n w)"
      by (intro loop_body_record_cong)
         (auto simp: loop_body_transcript loop_body_converted target_audio_inj)
  qed
  then have "List.map_filter (\<lambda>n. snd (loop_body ff ad ld od tg rc sr n ?w1)) ns =
      List.map_filter (\<lambda>n. snd (loop_body ff ad ld od tg rc sr n w)) ns"
    by (auto simp: List.map_filter_def intro!: map_cong filter_cong)
  with Cons.IH [of ?w1] Cons.prems show ?case
    by (simp add: scan_loop_snd_Cons List.map_filter_simps split: option.splits)
qed

lemma scan_loop_subseq:
  "\<exists>ms. subseq ms ns \<and> map keys (snd (scan_loop ff ad ld od tg rc sr ns w [])) = map stem ms"
proof (induction ns arbitrary: w)
  case Nil
  show ?case by simp
next
  case (Cons m ns)
  let ?w1 = "fst (loop_body ff ad ld od tg rc sr m w)"
  obtain ms where ms: "subseq ms ns"
      "map keys (snd (scan_loop ff ad ld od tg rc sr ns ?w1 [])) = map stem ms"
    using Cons.IH [of ?w1] by blast
  show ?case
  proof (cases "snd (loop_body ff ad ld od tg rc sr m w)")
    case None
    with ms have "subseq ms (m # ns) \<and>
        map keys (snd (scan_loop ff ad ld od tg rc sr (m # ns) w [])) = map stem ms"
      by (auto simp: scan_loop_snd_Cons)
    then show ?thesis by blast
  next
    case (Some r)
    then have "keys r = stem m"
      by (auto simp: loop_body_record split: option.splits if_splits)
    with Some ms have "subseq (m # ms) (m # ns) \<and>
        map keys (snd (scan_loop ff ad ld od tg rc sr (m # ns) w [])) = map stem (m # ms)"
      by (simp add: scan_loop_snd_Cons)
    then show ?thesis by blast
  qed
qed

section \<open>Helper lemmas: the whole run\<close>

lemma build_dataset_eq:
  "build_dataset ff ad ld od tg rc ext sr w =
     (if snd (scan ff ad ld od tg rc ext sr w) = []
      then (Inl no_valid_pairs, fst (scan ff ad ld od tg rc ext sr w))
      else (Inr (),
            print (lit ''Saved dataset with '' @
                     str_int (int (length (snd (scan ff ad ld od tg rc ext sr w)))) @
                     lit '' items to '' @ od)
              ((fst (scan ff ad ld od tg rc ext sr w))
                 \<lparr>output_dir_exists := True,
                  saved_dataset := Some (snd (scan ff ad ld od tg rc ext sr w))\<rparr>)))"
  by (cases "scan ff ad ld od tg rc ext sr w") (simp add: build_dataset_def)

lemma scan_frame:
  "audio_files (fst (scan ff ad ld od tg rc ext sr w)) = audio_files w"
  "lyrics_files (fst (scan ff ad ld od tg rc ext sr w)) = lyrics_files w"
  "saved_dataset (fst (scan ff ad ld od tg rc ext sr w)) = saved_dataset w"
  using scan_loop_frame [of ff ad ld od tg rc sr "audio_paths ext w" w]
  by (simp_all add: scan_def)

lemma build_dataset_fst:
  "fst (build_dataset ff ad ld od tg rc ext sr w) =
     (if snd (scan ff ad ld od tg rc ext sr w) = [] then Inl no_valid_pairs else Inr ())"
  by (simp add: build_dataset_eq)

lemma build_dataset_calls:
  "ffmpeg_calls (snd (build_dataset ff ad ld od tg rc ext sr w)) =
     ffmpeg_calls (fst (scan ff ad ld od tg rc ext sr w))"
  by (simp add: build_dataset_eq)

lemma build_dataset_converted:
  "converted_files (snd (build_dataset ff ad ld od tg rc ext sr w)) =
     converted_files (fst (scan ff ad ld od tg rc ext sr w))"
  by (simp add: build_dataset_eq)

lemma build_dataset_inputs:
  "audio_files (snd (build_dataset ff ad ld od tg rc ext sr w)) = audio_files w"
  "lyrics_files (snd (build_dataset ff ad ld od tg rc ext sr w)) = lyrics_files w"
  by (simp_all add: build_dataset_eq scan_frame)

lemma build_dataset_saved:
  "saved_dataset (snd (build_dataset ff ad ld od tg rc ext sr w)) =
     (if snd (scan ff ad ld od tg rc ext sr w) = [] then saved_dataset w
      else Some (snd (scan ff ad ld od tg rc ext sr w)))"
  by (simp add: build_dataset_eq scan_frame)

lemma build_dataset_dirs:
  "output_dir_exists (snd (build_dataset ff ad ld od tg rc ext sr w)) =
     (snd (scan ff ad ld od tg rc ext sr w) \<noteq> [] \<or>
      output_dir_exists (fst (scan ff ad ld od tg rc ext sr w)))"
  "converted_dir_exists (snd (build_dataset ff ad ld od tg rc ext sr w)) =
     converted_dir_exists (fst (scan ff ad ld od tg rc ext sr w))"
  by (simp_all add: build_dataset_eq)

lemma build_dataset_new_calls:
  "new_calls w (snd (build_dataset ff ad ld od tg rc ext sr w)) =
     new_calls w (fst (scan ff ad ld od tg rc ext sr w))"
  by (simp add: new_calls_def build_dataset_calls)

lemma build_dataset_stdout:
  "\<exists>ls. stdout (snd (build_dataset ff ad ld od tg rc ext sr w)) =
     stdout (fst (scan ff ad ld od tg rc ext sr w)) @ ls"
  by (simp add: build_dataset_eq)

lemma set_audio_paths:
  "set (audio_paths ext w) = {n \<in> set (audio_files w). endswith n ext}"
  by (simp add: audio_paths_def)

lemma scan_records:
  "r \<in> set (snd (scan ff ad ld od tg rc ext sr w)) \<Longrightarrow>
   \<exists>n\<in>set (audio_paths ext w). \<exists>t. transcript w n = Some t \<and> strip t \<noteq> [] \<and>
      r = make_record od tg rc (stem n) (strip t) \<and>
      (target_audio od (stem n) \<in> converted_files (fst (scan ff ad ld od tg rc ext sr w)) \<or>
       convert_cmd ad od sr n \<in> set (new_calls w (fst (scan ff ad ld od tg rc ext sr w))) \<and>
       returncode (ff (convert_cmd ad od sr n)) = 0)"
  unfolding scan_def by (rule scan_loop_records)

lemma scan_calls:
  "\<exists>cs. ffmpeg_calls (fst (scan ff ad ld od tg rc ext sr w)) = ffmpeg_calls w @ cs \<and>
        (\<forall>c\<in>set cs. \<exists>n\<in>set (audio_paths ext w). c = convert_cmd ad od sr n \<and>
           transcript w n \<noteq> None \<and> target_audio od (stem n) \<notin> converted_files w)"
  unfolding scan_def by (rule scan_loop_calls)

lemma scan_key_transcript:
  assumes "r \<in> set (snd (scan ff ad ld od tg rc ext sr w))"
  shows "\<exists>t. lyrics_files w (keys r @ lit ''.txt'') = Some t \<and> strip t \<noteq> [] \<and>
             norm_lyrics r = strip t"
proof -
  from scan_records [OF assms] obtain n t where
    "transcript w n = Some t" "strip t \<noteq> []" "r = make_record od tg rc (stem n) (strip t)"
    by blast
  then show ?thesis by (simp add: transcript_def)
qed

lemma recaption_make_record:
  "recaption (make_record od tg rc base lyr) =
     (case rc of None \<Rightarrow> None | Some s \<Rightarrow> if s = [] then None else Some \<lparr>style = s\<rparr>)"
  by (simp add: make_record_def)

lemma scan_loop_no_calls:
  "new_calls w (fst (scan_loop ff ad ld od tg rc sr ns w [])) = [] \<Longrightarrow>
   converted_files (fst (scan_loop ff ad ld od tg rc sr ns w [])) = converted_files w"
proof (induction ns arbitrary: w)
  case Nil
  show ?case by simp
next
  case (Cons n ns)
  let ?w1 = "fst (loop_body ff ad ld od tg rc sr n w)"
  let ?w2 = "fst (scan_loop ff ad ld od tg rc sr ns ?w1 [])"
  obtain a where a: "ffmpeg_calls ?w1 = ffmpeg_calls w @ a"
    by (simp add: loop_body_calls)
  obtain b where b: "ffmpeg_calls ?w2 = ffmpeg_calls ?w1 @ b"
    using scan_loop_calls [of ff ad ld od tg rc sr ns ?w1] by blast
  from Cons.prems new_calls_split [OF a b] have ab: "a = []" "new_calls ?w1 ?w2 = []"
    by (simp_all add: scan_loop_fst_Cons)
  from ab(1) a have "converted_files ?w1 = converted_files w"
    by (auto simp: loop_body_calls loop_body_converted split: if_splits)
  with Cons.IH [OF ab(2)] show ?case
    by (simp add: scan_loop_fst_Cons)
qed

lemma scan_dirs:
  "output_dir_exists (fst (scan ff ad ld od tg rc ext sr w)) =
     (output_dir_exists w \<or> new_calls w (fst (scan ff ad ld od tg rc ext sr w)) \<noteq> [])"
  "converted_dir_exists (fst (scan ff ad ld od tg rc ext sr w)) =
     (converted_dir_exists w \<or> new_calls w (fst (scan ff ad ld od tg rc ext sr w)) \<noteq> [])"
  using scan_loop_dirs [of ff ad ld od tg rc sr "audio_paths ext w" w]
  by (simp_all add: scan_def)

lemma loop_body_listing:
  "loop_body ff ad ld od tg rc sr n (w\<lparr>audio_files := xs\<rparr>) =
     ((fst (loop_body ff ad ld od tg rc sr n w))\<lparr>audio_files := xs\<rparr>,
      snd (loop_body ff ad ld od tg rc sr n w))"
  by (simp add: loop_body_def convert_step_def run_ffmpeg_def print_def Let_def
        split: option.splits)

lemma scan_loop_listing:
  "snd (scan_loop ff ad ld od tg rc sr ns (w\<lparr>audio_files := xs\<rparr>) []) =
     snd (scan_loop ff ad ld od tg rc sr ns w [])"
proof (induction ns arbitrary: w)
  case Nil
  show ?case by simp
next
  case (Cons n ns)
  show ?case
    using Cons.IH [of "fst (loop_body ff ad ld od tg rc sr n w)"]
    by (simp add: scan_loop_snd_Cons loop_body_listing)
qed

lemma audio_paths_listing:
  assumes "mset xs = mset (audio_files w)"
  shows "audio_paths ext (w\<lparr>audio_files := xs\<rparr>) = audio_paths ext w"
proof -
  have "mset (filter (\<lambda>name. endswith name ext) xs) =
      mset (filter (\<lambda>name. endswith name ext) (audio_files w))"
    using assms by (simp add: mset_filter)
  then have "sort (filter (\<lambda>name. endswith name ext) xs) =
      sort (filter (\<lambda>name. endswith name ext) (audio_files w))"
    by (intro properties_for_sort) simp_all
  then show ?thesis by (simp add: audio_paths_def)
qed

lemma loop_body_record_eq:
  "transcript w' n = transcript w n \<Longrightarrow>
   (target_audio od (stem n) \<in> converted_files w' \<or>
      returncode (ff (convert_cmd ad od sr n)) = 0) \<longleftrightarrow>
   (target_audio od (stem n) \<in> converted_files w \<or>
      returncode (ff (convert_cmd ad od sr n)) = 0) \<Longrightarrow>
   snd (loop_body ff ad ld od tg rc sr n w') = snd (loop_body ff ad ld od tg rc sr n w)"
  by (cases "transcript w n") (simp_all add: loop_body_record)

lemma scan_converted_mono:
  "converted_files w \<subseteq> converted_files (fst (scan ff ad ld od tg rc ext sr w))"
  unfolding scan_def by (rule scan_loop_converted_mono)

lemma scan_converted_new:
  "t \<in> converted_files (fst (scan ff ad ld od tg rc ext sr w)) \<Longrightarrow>
   t \<in> converted_files w \<or>
   (\<exists>n\<in>set (audio_paths ext w). t = target_audio od (stem n) \<and> transcript w n \<noteq> None \<and>
      output_written (ff (convert_cmd ad od sr n)))"
  unfolding scan_def by (rule scan_loop_converted_new)

lemma audio_paths_build_dataset:
  "audio_paths ext (snd (build_dataset ff ad ld od tg rc ext' sr w)) = audio_paths ext w"
  by (simp add: audio_paths_def build_dataset_inputs)

lemma transcript_build_dataset:
  "transcript (snd (build_dataset ff ad ld od tg rc ext sr w)) n = transcript w n"
  by (simp add: transcript_def build_dataset_inputs)

lemma scan_distinct:
  "distinct (map stem (audio_paths ext w)) \<Longrightarrow>
   snd (scan ff ad ld od tg rc ext sr w) =
     List.map_filter (\<lambda>n. snd (loop_body ff ad ld od tg rc sr n w)) (audio_paths ext w)"
  unfolding scan_def by (rule scan_loop_distinct)

lemma scan_new_stdout:
  "set (new_stdout w (fst (scan ff ad ld od tg rc ext sr w))) \<subseteq>
   set (new_stdout w (snd (build_dataset ff ad ld od tg rc ext sr w)))"
proof -
  obtain a where a: "stdout (fst (scan ff ad ld od tg rc ext sr w)) = stdout w @ a"
    using scan_loop_stdout [of ff ad ld od tg rc sr "audio_paths ext w" w]
    unfolding scan_def by blast
  obtain b where b: "stdout (snd (build_dataset ff ad ld od tg rc ext sr w)) =
      stdout (fst (scan ff ad ld od tg rc ext sr w)) @ b"
    using build_dataset_stdout by blast
  from a b show ?thesis by (simp add: new_stdout_def)
qed

section \<open>Evaluation on concrete inputs\<close>

lemmas run_simps =
  scan_def audio_paths_def fresh_world_def endswith_def scan_loop_snd_Cons scan_loop_fst_Cons
  loop_body_record loop_body_frame loop_body_converted loop_body_calls loop_body_dirs
  transcript_def stem_def rfind_def lit_def strip_def py_isspace_def
  target_audio_def converted_dir_def joinpath_def

lemma scan_two_songs:
  "snd (scan ffmpeg_ok (lit ''/audio'') (lit ''/lyrics'') (lit ''/out'') tg rc (lit ''.mp3'')
          48000 two_songs) =
     [make_record (lit ''/out'') tg rc (lit ''song1'') (lit ''hello world'')]"
  by (simp add: run_simps two_songs_def ffmpeg_ok_def)

section \<open>The dataset builder: no valid pairs\<close>

text \<open>
  C1, as the code has it. When the scan yields no record, \<open>build_dataset\<close> raises
  \<open>RuntimeError("No valid audio/lyrics pairs found.")\<close> and never reaches the save:
  the dataset saved at \<open>output_dir\<close>, if any, stays as it was. The directories
  \<open>output_dir\<close> and \<open>output_dir/converted_audio\<close> are created during the scan
  exactly when the transcoder is run for some item; when it is never run, no converted
  file appears either.
\<close>

theorem no_valid_pairs_raises:
  assumes "snd (scan ff ad ld od tg rc ext sr w) = []"
  shows "fst (build_dataset ff ad ld od tg rc ext sr w) = Inl no_valid_pairs \<and>
         saved_dataset (snd (build_dataset ff ad ld od tg rc ext sr w)) = saved_dataset w \<and>
         (output_dir_exists (snd (build_dataset ff ad ld od tg rc ext sr w)) \<longleftrightarrow>
            output_dir_exists w \<or>
            new_calls w (snd (build_dataset ff ad ld od tg rc ext sr w)) \<noteq> []) \<and>
         (converted_dir_exists (snd (build_dataset ff ad ld od tg rc ext sr w)) \<longleftrightarrow>
            converted_dir_exists w \<or>
            new_calls w (snd (build_dataset ff ad ld od tg rc ext sr w)) \<noteq> []) \<and>
         (new_calls w (snd (build_dataset ff ad ld od tg rc ext sr w)) = [] \<longrightarrow>
            converted_files (snd (build_dataset ff ad ld od tg rc ext sr w)) =
              converted_files w)"
proof -
  have "new_calls w (fst (scan ff ad ld od tg rc ext sr w)) = [] \<longrightarrow>
      converted_files (fst (scan ff ad ld od tg rc ext sr w)) = converted_files w"
    unfolding scan_def using scan_loop_no_calls by blast
  with assms show ?thesis
    by (simp add: build_dataset_fst build_dataset_saved build_dataset_dirs
          build_dataset_new_calls build_dataset_converted scan_dirs)
qed

theorem no_valid_pairs_raises_witness:
  "snd (scan ffmpeg_broken (lit ''/audio'') (lit ''/lyrics'') (lit ''/out'') [lit ''pop''] None
          (lit ''.mp3'') 48000 two_songs) = [] \<and>
   fst (build_dataset ffmpeg_broken (lit ''/audio'') (lit ''/lyrics'') (lit ''/out'') [lit ''pop'']
          None (lit ''.mp3'') 48000 two_songs) = Inl no_valid_pairs \<and>
   saved_dataset (snd (build_dataset ffmpeg_broken (lit ''/audio'') (lit ''/lyrics'') (lit ''/out'')
          [lit ''pop''] None (lit ''.mp3'') 48000 two_songs)) = None"
proof -
  have h: "snd (scan ffmpeg_broken (lit ''/audio'') (lit ''/lyrics'') (lit ''/out'') [lit ''pop'']
          None (lit ''.mp3'') 48000 two_songs) = []"
    by (simp add: run_simps two_songs_def ffmpeg_broken_def)
  have "saved_dataset two_songs = None"
    by (simp add: two_songs_def fresh_world_def)
  with no_valid_pairs_raises [OF h] h show ?thesis by simp
qed

text \<open>
  C1 as stated fails: with one audio file whose transcript is blank, the transcoder is
  run before the transcript is read, so the run ends in the error and yet has created
  \<open>output_dir\<close> and written a converted file below it.
\<close>

theorem no_valid_pairs_still_writes:
  "snd (scan ffmpeg_ok (lit ''/audio'') (lit ''/lyrics'') (lit ''/out'') [lit ''pop''] None
          (lit ''.mp3'') 48000 blank_song) = [] \<and>
   fst (build_dataset ffmpeg_ok (lit ''/audio'') (lit ''/lyrics'') (lit ''/out'') [lit ''pop'']
          None (lit ''.mp3'') 48000 blank_song) = Inl no_valid_pairs \<and>
   \<not> output_dir_exists blank_song \<and>
   output_dir_exists (snd (build_dataset ffmpeg_ok (lit ''/audio'') (lit ''/lyrics'')
          (lit ''/out'') [lit ''pop''] None (lit ''.mp3'') 48000 blank_song)) \<and>
   converted_files (snd (build_dataset ffmpeg_ok (lit ''/audio'') (lit ''/lyrics'')
          (lit ''/out'') [lit ''pop''] None (lit ''.mp3'') 48000 blank_song)) =
     {lit ''/out/converted_audio/a.wav''}"
proof -
  have s: "snd (scan ffmpeg_ok (lit ''/audio'') (lit ''/lyrics'') (lit ''/out'') [lit ''pop'']
          None (lit ''.mp3'') 48000 blank_song) = []"
    by (simp add: run_simps blank_song_def ffmpeg_ok_def)
  have d: "output_dir_exists (fst (scan ffmpeg_ok (lit ''/audio'') (lit ''/lyrics'')
          (lit ''/out'') [lit ''pop''] None (lit ''.mp3'') 48000 blank_song))"
    by (simp add: run_simps blank_song_def ffmpeg_ok_def)
  have c: "converted_files (fst (scan ffmpeg_ok (lit ''/audio'') (lit ''/lyrics'')
          (lit ''/out'') [lit ''pop''] None (lit ''.mp3'') 48000 blank_song)) =
     {lit ''/out/converted_audio/a.wav''}"
    by (simp add: run_simps blank_song_def ffmpeg_ok_def convert_cmd_def)
  have n: "\<not> output_dir_exists blank_song"
    by (simp add: blank_song_def fresh_world_def)
  from s d c n show ?thesis
    by (simp add: build_dataset_fst build_dataset_dirs build_dataset_converted)
qed

section \<open>The dataset builder: what a persisted record stands for\<close>



section \<open>The dataset builder: record order\<close>

text \<open>
  C3, as the code has it. The records follow the sorted audio file names: their keys are
  the base names of an increasing sequence of matched names of \<open>audio_dir\<close>. The order
  is that of the whole file name, extension included, as \<open>sorted()\<close> orders the paths;
  and it does not depend on the order in which the file system lists the directory.
\<close>

theorem records_in_file_name_order:
  "(\<exists>ms. sorted ms \<and> subseq ms (audio_paths ext w) \<and>
         set ms \<subseteq> {n \<in> set (audio_files w). endswith n ext} \<and>
         map keys (snd (scan ff ad ld od tg rc ext sr w)) = map stem ms) \<and>
   (\<forall>xs. mset xs = mset (audio_files w) \<longrightarrow>
         snd (scan ff ad ld od tg rc ext sr (w\<lparr>audio_files := xs\<rparr>)) =
         snd (scan ff ad ld od tg rc ext sr w))"
proof
  obtain ms where ms: "subseq ms (audio_paths ext w)"
      "map keys (snd (scan ff ad ld od tg rc ext sr w)) = map stem ms"
    using scan_loop_subseq [of "audio_paths ext w" ff ad ld od tg rc sr w]
    unfolding scan_def by blast
  have "sorted (audio_paths ext w)"
    by (simp add: audio_paths_def)
  with ms(1) have "sorted ms" by (rule subseq_sorted)
  moreover from ms(1) have "set ms \<subseteq> {n \<in> set (audio_files w). endswith n ext}"
    using set_audio_paths [of ext w] by (auto dest: list_emb_set)
  ultimately show "\<exists>ms. sorted ms \<and> subseq ms (audio_paths ext w) \<and>
         set ms \<subseteq> {n \<in> set (audio_files w). endswith n ext} \<and>
         map keys (snd (scan ff ad ld od tg rc ext sr w)) = map stem ms"
    using ms by blast
next
  show "\<forall>xs. mset xs = mset (audio_files w) \<longrightarrow>
         snd (scan ff ad ld od tg rc ext sr (w\<lparr>audio_files := xs\<rparr>)) =
         snd (scan ff ad ld od tg rc ext sr w)"
    by (simp add: scan_def audio_paths_listing scan_loop_listing)
qed

text \<open>
  The listing \<open>b.mp3, a.mp3, c.mp3\<close>, each with a transcript, gives the records
  \<open>a, b, c\<close>, and so does the listing \<open>c.mp3, b.mp3, a.mp3\<close>.
\<close>

theorem records_in_file_name_order_witness:
  "mset [lit ''c.mp3'', lit ''b.mp3'', lit ''a.mp3''] =
     mset (audio_files (fresh_world [lit ''b.mp3'', lit ''a.mp3'', lit ''c.mp3''] abc_lyrics)) \<and>
   map keys (snd (scan ffmpeg_ok (lit ''/audio'') (lit ''/lyrics'') (lit ''/out'') [lit ''pop'']
      None (lit ''.mp3'') 48000
      (fresh_world [lit ''b.mp3'', lit ''a.mp3'', lit ''c.mp3''] abc_lyrics))) =
     [lit ''a'', lit ''b'', lit ''c''] \<and>
   map keys (snd (scan ffmpeg_ok (lit ''/audio'') (lit ''/lyrics'') (lit ''/out'') [lit ''pop'']
      None (lit ''.mp3'') 48000
      ((fresh_world [lit ''b.mp3'', lit ''a.mp3'', lit ''c.mp3''] abc_lyrics)
         \<lparr>audio_files := [lit ''c.mp3'', lit ''b.mp3'', lit ''a.mp3'']\<rparr>))) =
     [lit ''a'', lit ''b'', lit ''c'']"
proof -
  let ?w = "fresh_world [lit ''b.mp3'', lit ''a.mp3'', lit ''c.mp3''] abc_lyrics"
  have h: "mset [lit ''c.mp3'', lit ''b.mp3'', lit ''a.mp3''] = mset (audio_files ?w)"
    by (simp add: fresh_world_def)
  have e: "map keys (snd (scan ffmpeg_ok (lit ''/audio'') (lit ''/lyrics'') (lit ''/out'')
      [lit ''pop''] None (lit ''.mp3'') 48000 ?w)) = [lit ''a'', lit ''b'', lit ''c'']"
    by (simp add: run_simps abc_lyrics_def ffmpeg_ok_def)
  from records_in_file_name_order [of "lit ''.mp3''" ?w ffmpeg_ok "lit ''/audio''"
      "lit ''/lyrics''" "lit ''/out''" "[lit ''pop'']" None 48000] h
  have "snd (scan ffmpeg_ok (lit ''/audio'') (lit ''/lyrics'') (lit ''/out'') [lit ''pop'']
      None (lit ''.mp3'') 48000 (?w\<lparr>audio_files := [lit ''c.mp3'', lit ''b.mp3'', lit ''a.mp3'']\<rparr>)) =
     snd (scan ffmpeg_ok (lit ''/audio'') (lit ''/lyrics'') (lit ''/out'') [lit ''pop'']
      None (lit ''.mp3'') 48000 ?w)"
    by blast
  with h e show ?thesis by simp
qed

text \<open>
  C3 as stated fails: \<open>a-b.mp3\<close> sorts before \<open>a.mp3\<close> (a hyphen is smaller than a
  dot), so the records come in the order \<open>a-b, a\<close>, while the base name \<open>a\<close> is
  smaller than \<open>a-b\<close>.
\<close>

theorem records_not_in_base_name_order:
  "map keys (snd (scan ffmpeg_ok (lit ''/audio'') (lit ''/lyrics'') (lit ''/out'') [lit ''pop'']
      None (lit ''.mp3'') 48000 dash_songs)) = [lit ''a-b'', lit ''a''] \<and>
   lit ''a'' < lit ''a-b'' \<and>
   \<not> sorted (map keys (snd (scan ffmpeg_ok (lit ''/audio'') (lit ''/lyrics'') (lit ''/out'')
      [lit ''pop''] None (lit ''.mp3'') 48000 dash_songs)))"
proof -
  have e: "map keys (snd (scan ffmpeg_ok (lit ''/audio'') (lit ''/lyrics'') (lit ''/out'')
      [lit ''pop''] None (lit ''.mp3'') 48000 dash_songs)) = [lit ''a-b'', lit ''a'']"
    by (simp add: run_simps dash_songs_def ffmpeg_ok_def)
  have l: "lit ''a'' < lit ''a-b''" by (simp add: lit_def)
  have "\<not> sorted [lit ''a-b'', lit ''a'']" by (simp add: lit_def)
  with e l show ?thesis by simp
qed

section \<open>The dataset builder: running it again\<close>




section \<open>The dataset builder: an audio file without a transcript\<close>

text \<open>
  C5. An audio file of \<open>audio_dir\<close> whose base name \<open>B\<close> has no \<open>B.txt\<close> in
  \<open>lyrics_dir\<close> gets no record, and no transcoder command line of the run has that
  file as its input (the argument after \<open>-i\<close>, at index 3).
\<close>

theorem missing_transcript_skipped:
  assumes "n \<in> set (audio_files w)"
    and "lyrics_files w (stem n @ lit ''.txt'') = None"
  shows "stem n \<notin> keys ` set (snd (scan ff ad ld od tg rc ext sr w)) \<and>
         (\<forall>c\<in>set (new_calls w (snd (build_dataset ff ad ld od tg rc ext sr w))).
            c ! 3 \<noteq> joinpath ad n)"
proof
  show "stem n \<notin> keys ` set (snd (scan ff ad ld od tg rc ext sr w))"
  proof
    assume "stem n \<in> keys ` set (snd (scan ff ad ld od tg rc ext sr w))"
    then obtain r where r: "r \<in> set (snd (scan ff ad ld od tg rc ext sr w))" "keys r = stem n"
      by auto
    from scan_key_transcript [OF r(1)] r(2) assms(2) show False by simp
  qed
next
  obtain cs where cs:
    "ffmpeg_calls (fst (scan ff ad ld od tg rc ext sr w)) = ffmpeg_calls w @ cs"
    "\<forall>c\<in>set cs. \<exists>m\<in>set (audio_paths ext w). c = convert_cmd ad od sr m \<and>
        transcript w m \<noteq> None \<and> target_audio od (stem m) \<notin> converted_files w"
    using scan_calls [of ff ad ld od tg rc ext sr w] by blast
  have nc: "new_calls w (snd (build_dataset ff ad ld od tg rc ext sr w)) = cs"
    using cs(1) by (simp add: build_dataset_calls new_calls_def)
  show "\<forall>c\<in>set (new_calls w (snd (build_dataset ff ad ld od tg rc ext sr w))).
          c ! 3 \<noteq> joinpath ad n"
    unfolding nc
  proof
    fix c assume "c \<in> set cs"
    with cs(2) obtain m where m: "c = convert_cmd ad od sr m" "transcript w m \<noteq> None"
      by blast
    show "c ! 3 \<noteq> joinpath ad n"
    proof
      assume "c ! 3 = joinpath ad n"
      with m(1) have "m = n"
        by (simp add: convert_cmd_def ffmpeg_cmd_def joinpath_inj)
      with m(2) assms(2) show False by (simp add: transcript_def)
    qed
  qed
qed

theorem missing_transcript_skipped_witness:
  "lit ''song2.mp3'' \<in> set (audio_files two_songs) \<and>
   lyrics_files two_songs (stem (lit ''song2.mp3'') @ lit ''.txt'') = None \<and>
   stem (lit ''song2.mp3'') \<notin> keys ` set (snd (scan ffmpeg_ok (lit ''/audio'') (lit ''/lyrics'')
      (lit ''/out'') [lit ''pop''] None (lit ''.mp3'') 48000 two_songs)) \<and>
   new_calls two_songs (snd (build_dataset ffmpeg_ok (lit ''/audio'') (lit ''/lyrics'')
      (lit ''/out'') [lit ''pop''] None (lit ''.mp3'') 48000 two_songs)) =
     [convert_cmd (lit ''/audio'') (lit ''/out'') 48000 (lit ''song1.mp3'')]"
proof -
  have h1: "lit ''song2.mp3'' \<in> set (audio_files two_songs)"
    by (simp add: two_songs_def fresh_world_def)
  have h2: "lyrics_files two_songs (stem (lit ''song2.mp3'') @ lit ''.txt'') = None"
    by (simp add: two_songs_def fresh_world_def stem_def rfind_def lit_def)
  have calls: "new_calls two_songs (snd (build_dataset ffmpeg_ok (lit ''/audio'') (lit ''/lyrics'')
      (lit ''/out'') [lit ''pop''] None (lit ''.mp3'') 48000 two_songs)) =
     [convert_cmd (lit ''/audio'') (lit ''/out'') 48000 (lit ''song1.mp3'')]"
    by (simp add: build_dataset_calls new_calls_def two_songs_def run_simps)
  from missing_transcript_skipped [OF h1 h2, of ffmpeg_ok "lit ''/audio''" "lit ''/lyrics''"
      "lit ''/out''" "[lit ''pop'']" None "lit ''.mp3''" 48000] h1 h2 calls
  show ?thesis by simp
qed

section \<open>The dataset builder: a blank transcript\<close>

text \<open>
  C6. When the transcript of base name \<open>B\<close> is empty or holds only whitespace, no
  record has the key \<open>B\<close>, whatever the transcoder does.
\<close>

theorem blank_transcript_excluded:
  assumes "lyrics_files w (stem n @ lit ''.txt'') = Some t"
    and "\<forall>c\<in>set t. py_isspace c"
  shows "stem n \<notin> keys ` set (snd (scan ff ad ld od tg rc ext sr w))"
proof
  assume "stem n \<in> keys ` set (snd (scan ff ad ld od tg rc ext sr w))"
  then obtain r where r: "r \<in> set (snd (scan ff ad ld od tg rc ext sr w))" "keys r = stem n"
    by auto
  from scan_key_transcript [OF r(1)] r(2) assms(1) have "strip t \<noteq> []" by simp
  with assms(2) show False by (simp add: strip_empty_iff)
qed

theorem blank_transcript_excluded_witness:
  "lyrics_files blank_song (stem (lit ''a.mp3'') @ lit ''.txt'') = Some (lit ''   '') \<and>
   stem (lit ''a.mp3'') \<notin> keys ` set (snd (scan ffmpeg_ok (lit ''/audio'') (lit ''/lyrics'')
      (lit ''/out'') [lit ''pop''] None (lit ''.mp3'') 48000 blank_song)) \<and>
   stem (lit ''a.mp3'') \<notin> keys ` set (snd (scan ffmpeg_broken (lit ''/audio'') (lit ''/lyrics'')
      (lit ''/out'') [lit ''pop''] None (lit ''.mp3'') 48000 blank_song))"
proof -
  have h1: "lyrics_files blank_song (stem (lit ''a.mp3'') @ lit ''.txt'') = Some (lit ''   '')"
    by (simp add: blank_song_def fresh_world_def stem_def rfind_def lit_def)
  have h2: "\<forall>c\<in>set (lit ''   ''). py_isspace c"
    by (simp add: lit_def py_isspace_def)
  from blank_transcript_excluded [OF h1 h2, of ffmpeg_ok]
       blank_transcript_excluded [OF h1 h2, of ffmpeg_broken] h1
  show ?thesis by simp
qed

section \<open>The dataset builder: a failed conversion\<close>



section \<open>The dataset builder: the style annotation\<close>

text \<open>
  C8. A record produced by a run carries \<open>recaption\<close> exactly when the caller's
  \<open>recaption\<close> is a non-empty string, and then it is \<open>{"style": recaption}\<close>; with
  \<open>None\<close> or the empty string the key is absent from every record.
\<close>

theorem recaption_iff_supplied:
  assumes "r \<in> set (snd (scan ff ad ld od tg rc ext sr w))"
  shows "(recaption r \<noteq> None \<longleftrightarrow> (\<exists>s. rc = Some s \<and> s \<noteq> [])) \<and>
         (\<forall>s. rc = Some s \<longrightarrow> s \<noteq> [] \<longrightarrow> recaption r = Some \<lparr>style = s\<rparr>)"
proof -
  from scan_records [OF assms] obtain n t where
    "r = make_record od tg rc (stem n) (strip t)"
    by blast
  then show ?thesis
    by (cases rc) (simp_all add: recaption_make_record)
qed

theorem recaption_iff_supplied_witness:
  "recaption (make_record (lit ''/out'') [lit ''pop''] (Some (lit ''lo-fi'')) (lit ''song1'')
      (lit ''hello world'')) = Some \<lparr>style = lit ''lo-fi''\<rparr> \<and>
   recaption (make_record (lit ''/out'') [lit ''pop''] None (lit ''song1'')
      (lit ''hello world'')) = None \<and>
   recaption (make_record (lit ''/out'') [lit ''pop''] (Some []) (lit ''song1'')
      (lit ''hello world'')) = None"
proof -
  have h: "make_record (lit ''/out'') [lit ''pop''] rc (lit ''song1'') (lit ''hello world'') \<in>
      set (snd (scan ffmpeg_ok (lit ''/audio'') (lit ''/lyrics'') (lit ''/out'') [lit ''pop''] rc
        (lit ''.mp3'') 48000 two_songs))" for rc
    by (simp add: scan_two_songs)
  from recaption_iff_supplied [OF h [of "Some (lit ''lo-fi'')"]]
       recaption_iff_supplied [OF h [of None]]
       recaption_iff_supplied [OF h [of "Some []"]]
  show ?thesis by (simp add: lit_def)
qed

section \<open>The channel fetcher: exit status\<close>

text \<open>
  C9. Whatever the downloader does, \<open>download_channel\<close> runs it once; a non-zero
  exit status \<open>N\<close> becomes \<open>SystemExit(N)\<close> with exactly that status, raised as the
  last thing the function does and passed on unchanged by \<open>main\<close>; a zero status
  makes the function return normally.
\<close>

theorem download_channel_exit_status:
  "(yt_returncode (yt (yt_dlp_cmd url od mc)) \<noteq> 0 \<longrightarrow>
      fst (download_channel yt url od mc w) =
        Inl (SystemExit (yt_returncode (yt (yt_dlp_cmd url od mc)))) \<and>
      fst (fetch_main yt \<lparr>args_channel_url = url, args_fetch_output_dir = od,
                          args_max_concurrent = mc\<rparr> w) =
        Inl (SystemExit (yt_returncode (yt (yt_dlp_cmd url od mc))))) \<and>
   (yt_returncode (yt (yt_dlp_cmd url od mc)) = 0 \<longrightarrow>
      fst (download_channel yt url od mc w) = Inr () \<and>
      fst (fetch_main yt \<lparr>args_channel_url = url, args_fetch_output_dir = od,
                          args_max_concurrent = mc\<rparr> w) = Inr ()) \<and>
   yt_dlp_calls (snd (download_channel yt url od mc w)) =
     yt_dlp_calls w @ [yt_dlp_cmd url od mc]"
  by (simp add: download_channel_def fetch_main_def Let_def ensure_output_dir_def)

theorem download_channel_exit_status_witness:
  "fst (download_channel (\<lambda>cmd. \<lparr>yt_returncode = 3, yt_files = {}\<rparr>)
          (lit ''https://www.youtube.com/@Handle'') (lit ''/out'') 2
          \<lparr>fetch_dir_exists = False, fetch_files = {}, fetch_stdout = [], yt_dlp_calls = []\<rparr>) =
     Inl (SystemExit 3) \<and>
   fst (download_channel (\<lambda>cmd. \<lparr>yt_returncode = 0, yt_files = {lit ''a-1.mp3''}\<rparr>)
          (lit ''https://www.youtube.com/@Handle'') (lit ''/out'') 2
          \<lparr>fetch_dir_exists = False, fetch_files = {}, fetch_stdout = [], yt_dlp_calls = []\<rparr>) =
     Inr ()"
  using download_channel_exit_status
          [of "\<lambda>cmd. \<lparr>yt_returncode = 3, yt_files = {}\<rparr>"
              "lit ''https://www.youtube.com/@Handle''" "lit ''/out''" 2
              "\<lparr>fetch_dir_exists = False, fetch_files = {}, fetch_stdout = [], yt_dlp_calls = []\<rparr>"]
        download_channel_exit_status
          [of "\<lambda>cmd. \<lparr>yt_returncode = 0, yt_files = {lit ''a-1.mp3''}\<rparr>"
              "lit ''https://www.youtube.com/@Handle''" "lit ''/out''" 2
              "\<lparr>fetch_dir_exists = False, fetch_files = {}, fetch_stdout = [], yt_dlp_calls = []\<rparr>"]
  by simp

section \<open>The dataset builder: the tag list\<close>

text \<open>
  C10. The tag list \<open>main\<close> hands to \<open>build_dataset\<close> is the one the specification
  describes: the pieces between the commas (joined by commas they give the argument
  back, and none holds a comma), each stripped, without the pieces that are empty or
  hold only whitespace. No tag is the empty string, and an argument made of commas and
  whitespace only gives the empty list.
\<close>

theorem tags_split_and_stripped:
  "parse_tags s = tag_list_spec s \<and>
   join (lit '','') (split s 44) = s \<and>
   (\<forall>p\<in>set (split s 44). 44 \<notin> set p) \<and>
   [] \<notin> set (parse_tags s) \<and>
   ((\<forall>c\<in>set s. c = 44 \<or> py_isspace c) \<longrightarrow> parse_tags s = []) \<and>
   main ff a w =
     build_dataset ff (args_audio_dir a) (args_lyrics_dir a) (args_output_dir a)
       (tag_list_spec (args_tags a)) (args_recaption a) (args_audio_ext a)
       (args_sample_rate a) w"
proof -
  have eq: "parse_tags s = tag_list_spec s" for s
    by (simp add: parse_tags_def tag_list_spec_def whitespace_only_strip)
  have j: "join (lit '','') (split s 44) = s"
    using join_split [of 44 s] by (simp add: lit_def)
  have n: "\<forall>p\<in>set (split s 44). 44 \<notin> set p"
    using split_no_sep by blast
  have e: "[] \<notin> set (parse_tags s)"
    by (auto simp: parse_tags_def)
  have b: "(\<forall>c\<in>set s. c = 44 \<or> py_isspace c) \<longrightarrow> parse_tags s = []"
  proof
    assume all: "\<forall>c\<in>set s. c = 44 \<or> py_isspace c"
    have "strip p = []" if p: "p \<in> set (split s 44)" for p
    proof -
      from split_chars [OF p] split_no_sep [OF p] all
      have "\<forall>c\<in>set p. py_isspace c" by auto
      then show ?thesis by (simp add: strip_empty_iff)
    qed
    then show "parse_tags s = []"
      by (simp add: parse_tags_def filter_empty_conv)
  qed
  from eq j n e b show ?thesis by (simp add: main_def)
qed

theorem tags_split_and_stripped_witness:
  "parse_tags (lit '', ,  ,'') = [] \<and>
   parse_tags (lit '' rock , ,pop,,lo fi '') = [lit ''rock'', lit ''pop'', lit ''lo fi''] \<and>
   tag_list_spec (lit ''pop,midtempo,warm,guitar'') =
     [lit ''pop'', lit ''midtempo'', lit ''warm'', lit ''guitar'']"
proof -
  have h: "\<forall>c\<in>set (lit '', ,  ,''). c = 44 \<or> py_isspace c"
    by (simp add: lit_def py_isspace_def)
  have e1: "parse_tags (lit '' rock , ,pop,,lo fi '') = [lit ''rock'', lit ''pop'', lit ''lo fi'']"
    by (simp add: parse_tags_def strip_def py_isspace_def lit_def)
  have e2: "parse_tags (lit ''pop,midtempo,warm,guitar'') =
     [lit ''pop'', lit ''midtempo'', lit ''warm'', lit ''guitar'']"
    by (simp add: parse_tags_def strip_def py_isspace_def lit_def)
  have r1: "parse_tags (lit '', ,  ,'') = []"
    using tags_split_and_stripped [of "lit '', ,  ,''"] h by blast
  have "tag_list_spec (lit ''pop,midtempo,warm,guitar'') =
      parse_tags (lit ''pop,midtempo,warm,guitar'')"
    using tags_split_and_stripped [of "lit ''pop,midtempo,warm,guitar''"] by simp
  with r1 e1 e2 show ?thesis by simp
qed

end
